theory Spec2Isabelle
  imports Main
begin

section \<open>The command-line entry point of zod-v3-to-v4 (src/index.ts)\<close>

text \<open>
  The script validates one path argument, walks up the directory tree to the closest
  \<^verbatim>\<open>tsconfig.json\<close>, opens a ts-morph project that holds only the target file, runs the
  migration on it and saves. What the script does to the outside (the file system, the
  console, the ts-morph project, the process exit) is written out here as explicit state:
  a \<open>world\<close> is passed through every call and returned updated, and a call of
  \<^verbatim>\<open>process.exit\<close> or an exception nobody catches ends the run with an \<open>outcome\<close>.
\<close>

subsection \<open>node:path, POSIX flavour\<close>

text \<open>
  \<^verbatim>\<open>path.extname\<close>: the extension of the last component of the path, from its last dot.
  Trailing separators are skipped; a component without a dot, a component whose only
  dot is its first character, and the component \<^verbatim>\<open>..\<close> have the empty extension.
\<close>

definition path_extname :: "string \<Rightarrow> string" where
  "path_extname p =
     (let trimmed = dropWhile (\<lambda>c. c = CHR ''/'') (rev p);
          part = takeWhile (\<lambda>c. c \<noteq> CHR ''/'') trimmed;
          ext = takeWhile (\<lambda>c. c \<noteq> CHR ''.'') part;
          pre = drop (Suc (length ext)) part
      in if CHR ''.'' \<notin> set part then []
         else if pre = [] then []
         else if pre = ''.'' \<and> ext = [] then []
         else CHR ''.'' # rev ext)"

text \<open>
  \<^verbatim>\<open>path.dirname\<close>: the path up to the separator before its last component. The scan
  runs from the right over the positions \<open>1 ..\<close> of the string, skips trailing
  separators and the last component, and cuts at the separator it meets then.
\<close>

definition path_dirname :: "string \<Rightarrow> string" where
  "path_dirname p =
     (if p = [] then ''.''
      else
        let hasRoot = (hd p = CHR ''/'');
            r = dropWhile (\<lambda>c. c \<noteq> CHR ''/'')
                  (dropWhile (\<lambda>c. c = CHR ''/'') (rev (tl p)))
        in if r = [] then (if hasRoot then ''/'' else ''.'')
           else if hasRoot \<and> length r = 1 then ''//''
           else take (length r) p)"

text \<open>The segments of a path between its separators (empty ones included).\<close>

fun splitSlash :: "string \<Rightarrow> string list" where
  "splitSlash [] = [[]]"
| "splitSlash (c # cs) =
     (if c = CHR ''/'' then [] # splitSlash cs
      else (case splitSlash cs of [] \<Rightarrow> [[c]] | s # ss \<Rightarrow> (c # s) # ss))"

text \<open>
  The segment stack of node's \<^verbatim>\<open>normalizeString\<close>: empty segments and \<^verbatim>\<open>.\<close> are
  dropped, \<^verbatim>\<open>..\<close> removes the segment before it, and where there is none to remove it is
  kept when the path may climb above its start (\<open>allowAboveRoot\<close>) and dropped otherwise.
  The stack \<open>acc\<close> holds the segments kept so far, last one first.
\<close>

fun normalizeSegments :: "bool \<Rightarrow> string list \<Rightarrow> string list \<Rightarrow> string list" where
  "normalizeSegments allowAboveRoot acc [] = rev acc"
| "normalizeSegments allowAboveRoot acc (s # ss) =
     (if s = [] \<or> s = ''.'' then normalizeSegments allowAboveRoot acc ss
      else if s = ''..'' then
        (case acc of
           [] \<Rightarrow> normalizeSegments allowAboveRoot (if allowAboveRoot then [''..''] else []) ss
         | a # as \<Rightarrow>
             if a = ''..''
             then normalizeSegments allowAboveRoot (if allowAboveRoot then ''..'' # acc else acc) ss
             else normalizeSegments allowAboveRoot as ss)
      else normalizeSegments allowAboveRoot (s # acc) ss)"

fun joinSlash :: "string list \<Rightarrow> string" where
  "joinSlash [] = []"
| "joinSlash [s] = s"
| "joinSlash (s # t # ss) = s @ CHR ''/'' # joinSlash (t # ss)"

definition normalizeString :: "string \<Rightarrow> bool \<Rightarrow> string" where
  "normalizeString p allowAboveRoot = joinSlash (normalizeSegments allowAboveRoot [] (splitSlash p))"

text \<open>\<^verbatim>\<open>path.normalize\<close>, which \<^verbatim>\<open>path.join\<close> ends with.\<close>

definition path_normalize :: "string \<Rightarrow> string" where
  "path_normalize p =
     (if p = [] then ''.''
      else
        let isAbsolute = (hd p = CHR ''/'');
            trailingSeparator = (last p = CHR ''/'');
            n = normalizeString p (\<not> isAbsolute)
        in if n = [] then (if isAbsolute then ''/'' else if trailingSeparator then ''./'' else ''.'')
           else (if isAbsolute then ''/'' else []) @ n @ (if trailingSeparator then ''/'' else []))"

text \<open>\<^verbatim>\<open>path.join(a, b)\<close>: the non-empty arguments glued with a separator, normalized.\<close>

definition path_join :: "string \<Rightarrow> string \<Rightarrow> string" where
  "path_join a b =
     (let joined = (if a = [] then b else if b = [] then a else a @ CHR ''/'' # b)
      in if joined = [] then ''.'' else path_normalize joined)"

text \<open>
  \<^verbatim>\<open>path.resolve(p)\<close> with one argument, in a process whose working directory is
  \<open>cwd\<close>: an absolute \<open>p\<close> stands alone, any other is taken from \<open>cwd\<close>; the result is
  normalized and has no trailing separator.
\<close>

definition path_resolve :: "string \<Rightarrow> string \<Rightarrow> string" where
  "path_resolve cwd p =
     (let fromArg = (if p = [] then [] else p @ ''/'');
          argAbsolute = (p \<noteq> [] \<and> hd p = CHR ''/'');
          resolvedPath = (if argAbsolute \<or> cwd = [] then fromArg else cwd @ CHR ''/'' # fromArg);
          resolvedAbsolute = (argAbsolute \<or> (cwd \<noteq> [] \<and> hd cwd = CHR ''/''));
          n = normalizeString resolvedPath (\<not> resolvedAbsolute)
      in if resolvedAbsolute then CHR ''/'' # n
         else if n \<noteq> [] then n else ''.'')"

subsection \<open>The outside world\<close>

text \<open>
  The file system maps an absolute path \<^verbatim>\<open>/s1/.../sn\<close> to what is there: a regular file
  with its text, or a directory. The root directory is always there. Every call that
  reaches outside the script leaves an event in the trace, in the order of the calls.
\<close>

datatype node = File string | Dir

datatype event =
    ExistsSync string
  | ConsoleError string
  | ConsoleLog string
  | NewProject string
  | RemoveSourceFile string
  | AddSourceFileAtPath string
  | MigrateZodV3ToV4 string
  | WriteFile string string

record world =
  disk :: "string \<rightharpoonup> node"
  trace :: "event list"

definition emit :: "event \<Rightarrow> world \<Rightarrow> world" where
  "emit e w = w\<lparr>trace := trace w @ [e]\<rparr>"

text \<open>
  What the operating system finds at a path. It starts at the root for an absolute path
  and at the working directory otherwise, and takes the components one by one: the place
  it stands on must be a directory; an empty component and \<^verbatim>\<open>.\<close> stay there,
  \<^verbatim>\<open>..\<close> goes to the parent (the root is its own parent), a name goes to the entry of
  that name. So a path through a missing directory names nothing, and neither does a
  regular file followed by a separator. Symbolic links and permissions are left out.
\<close>

definition nodeAt :: "(string \<rightharpoonup> node) \<Rightarrow> string list \<Rightarrow> node option" where
  "nodeAt dk segs = (if segs = [] then Some Dir else dk (CHR ''/'' # joinSlash segs))"

fun walkPath :: "(string \<rightharpoonup> node) \<Rightarrow> string list \<Rightarrow> string list \<Rightarrow> node option" where
  "walkPath dk cur [] = nodeAt dk cur"
| "walkPath dk cur (c # cs) =
     (case nodeAt dk cur of
        Some Dir \<Rightarrow>
          if c = [] \<or> c = ''.'' then walkPath dk cur cs
          else if c = ''..'' then walkPath dk (butlast cur) cs
          else walkPath dk (cur @ [c]) cs
      | _ \<Rightarrow> None)"

text \<open>
  The node a path names, for a process in the directory \<open>cwd\<close>. The empty path names
  nothing, and node refuses a path with a null byte before it asks the system.
\<close>

definition statPath :: "string \<Rightarrow> (string \<rightharpoonup> node) \<Rightarrow> string \<Rightarrow> node option" where
  "statPath cwd dk p =
     (if p = [] \<or> CHR 0x00 \<in> set p then None
      else walkPath dk
             (if hd p = CHR ''/'' then [] else normalizeSegments False [] (splitSlash cwd))
             (splitSlash p))"

text \<open>
  \<^verbatim>\<open>fs.existsSync\<close>: whether the path names anything, a file or a directory.
\<close>

definition existsSync :: "string \<Rightarrow> string \<Rightarrow> world \<Rightarrow> bool \<times> world" where
  "existsSync cwd p w = (statPath cwd (disk w) p \<noteq> None, emit (ExistsSync p) w)"

subsection \<open>validateFilePath\<close>

text \<open>The result object: \<^verbatim>\<open>{ success: true }\<close> or \<^verbatim>\<open>{ success: false, reason }\<close>.\<close>

datatype validation = Success | Failure string

definition validExtensions :: "string list" where
  "validExtensions = [''.ts'', ''.tsx'', ''.js'', ''.jsx'']"

definition reasonInvalidExtension :: string where
  "reasonInvalidExtension =
     ''Please enter a valid TypeScript/JavaScript file path (.ts, .tsx, .js, .jsx).''"

definition reasonFileNotFound :: string where
  "reasonFileNotFound = ''File not found.''"

definition validateFilePath :: "string \<Rightarrow> string \<Rightarrow> world \<Rightarrow> validation \<times> world" where
  "validateFilePath cwd filePath w =
     (let ext = path_extname filePath
      in if ext \<notin> set validExtensions then (Failure reasonInvalidExtension, w)
         else
           let (found, w') = existsSync cwd filePath w
           in if \<not> found then (Failure reasonFileNotFound, w')
              else (Success, w'))"

subsection \<open>findClosestTsConfig\<close>

text \<open>
  Taking the parent directory makes a path smaller in the measure below, unless the path
  is its own parent. (The length alone would not do: the parent of \<^verbatim>\<open>a\<close> is \<^verbatim>\<open>.\<close>.)
\<close>

lemma dropWhile_twice_shorter:
  assumes ne: "dropWhile (\<lambda>c. c \<noteq> a) (dropWhile (\<lambda>c. c = a) xs) \<noteq> []"
  shows "length (dropWhile (\<lambda>c. c \<noteq> a) (dropWhile (\<lambda>c. c = a) xs)) < length xs"
proof -
  let ?ys = "dropWhile (\<lambda>c. c = a) xs"
  have "?ys \<noteq> []"
  proof
    assume "?ys = []"
    then have "dropWhile (\<lambda>c. c \<noteq> a) ?ys = []" by (simp only: dropWhile.simps)
    with ne show False by blast
  qed
  then obtain y ys where ys: "?ys = y # ys" by (cases ?ys) blast+
  have "y \<noteq> a" using hd_dropWhile[of "\<lambda>c. c = a" xs] \<open>?ys \<noteq> []\<close> ys by simp
  with ys have "dropWhile (\<lambda>c. c \<noteq> a) ?ys = dropWhile (\<lambda>c. c \<noteq> a) ys" by simp
  then have "length (dropWhile (\<lambda>c. c \<noteq> a) ?ys) \<le> length ys"
    by (simp add: length_dropWhile_le)
  also have "length ys < length ?ys" using ys by simp
  also have "length ?ys \<le> length xs" by (rule length_dropWhile_le)
  finally show ?thesis .
qed

lemma path_dirname_Nil: "path_dirname [] = ''.''"
  unfolding path_dirname_def by (simp only: refl if_True)

lemma path_dirname_Cons:
  "path_dirname (c # cs) =
     (let r = dropWhile (\<lambda>c. c \<noteq> CHR ''/'') (dropWhile (\<lambda>c. c = CHR ''/'') (rev cs))
      in if r = [] then (if c = CHR ''/'' then ''/'' else ''.'')
         else if c = CHR ''/'' \<and> length r = 1 then ''//''
         else c # take (length r - 1) cs)"
  unfolding path_dirname_def Let_def
  apply (simp only: list.sel list.simps if_False)
  apply (simp only: take_Cons')
  apply (simp only: length_0_conv if_cancel if_False cong: if_cong)
  done

lemma path_dirname_measure:
  assumes "path_dirname p \<noteq> p"
  shows "(if path_dirname p = ''.'' then 0 else Suc (length (path_dirname p)))
        < (if p = ''.'' then 0 else Suc (length p))"
proof (cases p)
  case Nil
  with path_dirname_Nil show ?thesis by simp
next
  case (Cons c cs)
  define r where
    "r = dropWhile (\<lambda>c. c \<noteq> CHR ''/'') (dropWhile (\<lambda>c. c = CHR ''/'') (rev cs))"
  have dn: "path_dirname p =
      (if r = [] then (if c = CHR ''/'' then ''/'' else ''.'')
       else if c = CHR ''/'' \<and> length r = 1 then ''//''
       else c # take (length r - 1) cs)"
    unfolding Cons path_dirname_Cons r_def Let_def ..
  show ?thesis
  proof (cases "r = []")
    case True
    with dn have d: "path_dirname p = (if c = CHR ''/'' then ''/'' else ''.'')"
      by (simp only: refl if_True)
    show ?thesis
    proof (cases "c = CHR ''/''")
      case True
      with d have "path_dirname p = ''/''" by simp
      moreover from this assms Cons True have "cs \<noteq> []" by auto
      ultimately show ?thesis using Cons by (cases cs) simp_all
    next
      case False
      with d have "path_dirname p = ''.''" by simp
      moreover from this assms have "p \<noteq> ''.''" by auto
      ultimately show ?thesis by simp
    qed
  next
    case False
    then have lt: "length r < length cs"
      unfolding r_def using dropWhile_twice_shorter[of "CHR ''/''" "rev cs"] by simp
    show ?thesis
    proof (cases "c = CHR ''/'' \<and> length r = 1")
      case True
      with False dn have "path_dirname p = ''//''" by simp
      moreover from True lt have "2 \<le> length cs" by simp
      ultimately show ?thesis using Cons by auto
    next
      case F2: False
      with False dn have "path_dirname p = c # take (length r - 1) cs" by simp
      moreover have "length (c # take (length r - 1) cs) < length p"
        using lt Cons by simp
      ultimately show ?thesis by (auto split: if_splits)
    qed
  qed
qed

text \<open>
  The body of the \<^verbatim>\<open>while (true)\<close> loop, from the directory it has reached. It ends
  when the configuration is there, or when the parent of the directory is the directory
  itself.
\<close>

function tsConfigWalk :: "string \<Rightarrow> string \<Rightarrow> world \<Rightarrow> string option \<times> world" where
  "tsConfigWalk cwd currentDir w =
     (let tsConfigPath = path_join currentDir ''tsconfig.json'';
          (found, w') = existsSync cwd tsConfigPath w
      in if found then (Some tsConfigPath, w')
         else
           let parentDir = path_dirname currentDir
           in if parentDir = currentDir then (None, w')
              else tsConfigWalk cwd parentDir w')"
  by pat_completeness auto
termination
proof (relation "measure (\<lambda>(cwd, p, w). if p = ''.'' then 0 else Suc (length p))")
  show "wf (measure (\<lambda>(cwd, p, w). if p = ''.'' then 0 else Suc (length p)))"
    by (rule wf_measure)
next
  fix cwd currentDir parentDir :: string and w w' :: world
  assume "parentDir = path_dirname currentDir" and "parentDir \<noteq> currentDir"
  then have "path_dirname currentDir \<noteq> currentDir" by simp
  from path_dirname_measure[OF this] \<open>parentDir = path_dirname currentDir\<close>
  show "((cwd, parentDir, w'), (cwd, currentDir, w))
        \<in> measure (\<lambda>(cwd, p, w). if p = ''.'' then 0 else Suc (length p))"
    by (simp only: in_measure prod.case)
qed

declare tsConfigWalk.simps [simp del]

definition findClosestTsConfig :: "string \<Rightarrow> string \<Rightarrow> world \<Rightarrow> string option \<times> world" where
  "findClosestTsConfig cwd startDir w = tsConfigWalk cwd (path_resolve cwd startDir) w"

subsection \<open>ts-morph and the migration\<close>

text \<open>
  The project of ts-morph, as far as the script uses it: the configuration it was opened
  with and the source files it holds, each with its path, its text and whether the text
  is the one last read from or written to the disk. A call that throws returns the error
  on the left.
\<close>

datatype engineError = ConfigError | FileNotFoundError | ParseError | WriteError

record sourceFile =
  getFilePath :: string
  getFullText :: string
  isSaved :: bool

record project =
  configFilePath :: string
  sourceFiles :: "sourceFile list"

text \<open>
  \<^verbatim>\<open>migrateZodV3ToV4\<close> lives in \<^verbatim>\<open>./migrate.ts\<close>: it returns, having left the tree of
  the source file as it was (\<open>Returned None\<close>) or having rewritten it to a new text
  (\<open>Returned (Some text)\<close>), or it throws. What it throws is an \<^verbatim>\<open>Error\<close> with a
  message, or some other value; a tree left half rewritten lives in memory only.
\<close>

datatype migrateResult = Returned "string option" | Threw "string option"

text \<open>
  What is outside the script and fixed during a run: the working directory of the
  process, the source files that opening a project on a configuration file loads (or the
  error it throws), whether the engine can parse a text under a configuration, the
  migration, and whether a path can be written. The parser of ts-morph recovers from
  syntax errors and makes a tree of every text: it is the engine whose \<open>canParse\<close> is
  true everywhere. The properties below hold for every engine.
\<close>

text \<open>
  Modelled from the spec: the field \<open>migrateZodV3ToV4\<close> stands for the function of
  \<^verbatim>\<open>./migrate.ts\<close>, which is not in \<^verbatim>\<open>src/\<close>. It is called with the source file
  and the option \<^verbatim>\<open>migrateImportDeclarations\<close>, and is an opaque transform of the tree
  that succeeds or raises.
\<close>

record env =
  processCwd :: string
  tsConfigFiles :: "string \<Rightarrow> engineError + sourceFile list"
  canParse :: "string \<Rightarrow> string \<Rightarrow> bool"
  migrateZodV3ToV4 :: "sourceFile \<Rightarrow> bool \<Rightarrow> migrateResult"
  canWrite :: "string \<Rightarrow> bool"

text \<open>\<^verbatim>\<open>new Project({ tsConfigFilePath, skipFileDependencyResolution: true })\<close>\<close>

definition newProject :: "env \<Rightarrow> string \<Rightarrow> world \<Rightarrow> (engineError + project) \<times> world" where
  "newProject env tsConfigFilePath w =
     (let w' = emit (NewProject tsConfigFilePath) w
      in case tsConfigFiles env tsConfigFilePath of
           Inl e \<Rightarrow> (Inl e, w')
         | Inr files \<Rightarrow> (Inr \<lparr>configFilePath = tsConfigFilePath, sourceFiles = files\<rparr>, w'))"

definition getSourceFiles :: "project \<Rightarrow> sourceFile list" where
  "getSourceFiles project = sourceFiles project"

text \<open>A project holds one source file for a path, so removing a file removes its path.\<close>

definition removeSourceFile :: "sourceFile \<Rightarrow> project \<times> world \<Rightarrow> project \<times> world" where
  "removeSourceFile file pw =
     (case pw of (project, w) \<Rightarrow>
        (project\<lparr>sourceFiles :=
           filter (\<lambda>g. getFilePath g \<noteq> getFilePath file) (sourceFiles project)\<rparr>,
         emit (RemoveSourceFile (getFilePath file)) w))"

text \<open>
  \<^verbatim>\<open>project.addSourceFileAtPath\<close>: a file the project already holds is returned as it
  is; otherwise the file is read from the disk, which throws where the path names no
  regular file, and parsed. A file just read has no unsaved change.
\<close>

definition addSourceFileAtPath ::
  "env \<Rightarrow> string \<Rightarrow> project \<Rightarrow> world \<Rightarrow> (engineError + sourceFile \<times> project) \<times> world" where
  "addSourceFileAtPath env absoluteFilePath project w =
     (let w' = emit (AddSourceFileAtPath absoluteFilePath) w
      in case find (\<lambda>g. getFilePath g = absoluteFilePath) (sourceFiles project) of
           Some g \<Rightarrow> (Inr (g, project), w')
         | None \<Rightarrow>
             (case statPath (processCwd env) (disk w) absoluteFilePath of
                Some (File text) \<Rightarrow>
                  if canParse env (configFilePath project) text
                  then
                    let sf = \<lparr>getFilePath = absoluteFilePath, getFullText = text,
                              isSaved = True\<rparr>
                    in (Inr (sf, project\<lparr>sourceFiles := sourceFiles project @ [sf]\<rparr>), w')
                  else (Inl ParseError, w')
              | _ \<Rightarrow> (Inl FileNotFoundError, w')))"

text \<open>
  The tree of a source file after the migration has rewritten it: the file has an unsaved
  change, even when the new text is the old one.
\<close>

definition replaceText :: "sourceFile \<Rightarrow> string \<Rightarrow> project \<Rightarrow> project" where
  "replaceText file text project =
     project\<lparr>sourceFiles :=
       map (\<lambda>g. if getFilePath g = getFilePath file
                then g\<lparr>getFullText := text, isSaved := False\<rparr> else g)
         (sourceFiles project)\<rparr>"

text \<open>
  \<^verbatim>\<open>project.save()\<close>: every source file of the project that has an unsaved change is
  written to its own path; the others are left alone. A write that fails rejects the
  promise.
\<close>

fun saveFiles :: "env \<Rightarrow> sourceFile list \<Rightarrow> world \<Rightarrow> engineError option \<times> world" where
  "saveFiles env [] w = (None, w)"
| "saveFiles env (f # fs) w =
     (if isSaved f then saveFiles env fs w
      else if canWrite env (getFilePath f)
      then saveFiles env fs
             (emit (WriteFile (getFilePath f) (getFullText f))
                (w\<lparr>disk := (disk w)(getFilePath f \<mapsto> File (getFullText f))\<rparr>))
      else (Some WriteError, w))"

definition save :: "env \<Rightarrow> project \<Rightarrow> world \<Rightarrow> engineError option \<times> world" where
  "save env project w = saveFiles env (sourceFiles project) w"

subsection \<open>runMigration\<close>

text \<open>
  How a run ends: the script runs to its end (exit code 0), it calls
  \<^verbatim>\<open>process.exit\<close>, or an exception reaches the top level, where node prints it and
  exits with code 1.
\<close>

datatype outcome = Completed | Exited nat | Uncaught engineError

fun exitCode :: "outcome \<Rightarrow> nat" where
  "exitCode Completed = 0"
| "exitCode (Exited n) = n"
| "exitCode (Uncaught e) = 1"

definition noTsConfigMessage :: string where
  "noTsConfigMessage =
     ''Error: No tsconfig.json found. Please ensure there's a tsconfig.json in the project.''"

definition failureMessage :: "string \<Rightarrow> string option \<Rightarrow> string" where
  "failureMessage path err =
     ''Failed to migrate '' @ path
     @ (case err of Some m \<Rightarrow> CHR 0x0A # ''Reason: '' @ m | None \<Rightarrow> [])
     @ [CHR 0x0A, CHR 0x0A]
     @ ''Please report this at https://github.com/nicoespeon/zod-v3-to-v4/issues''"

text \<open>
  Lines 59 to 70: the project is opened on the configuration, every source file it
  loaded is removed, and the target file is added.
\<close>

definition buildScopedProject ::
  "env \<Rightarrow> string \<Rightarrow> string \<Rightarrow> world \<Rightarrow> (engineError + sourceFile \<times> project) \<times> world" where
  "buildScopedProject env tsConfigFilePath absoluteFilePath w =
     (case newProject env tsConfigFilePath w of
        (Inl e, w1) \<Rightarrow> (Inl e, w1)
      | (Inr project, w1) \<Rightarrow>
          (case fold removeSourceFile (getSourceFiles project) (project, w1) of
             (project', w2) \<Rightarrow> addSourceFileAtPath env absoluteFilePath project' w2))"

definition runMigration :: "env \<Rightarrow> string \<Rightarrow> world \<Rightarrow> outcome \<times> world" where
  "runMigration env filePath w =
     (let absoluteFilePath = path_resolve (processCwd env) filePath;
          fileDir = path_dirname absoluteFilePath
      in case findClosestTsConfig (processCwd env) fileDir w of
           (None, w1) \<Rightarrow> (Exited 1, emit (ConsoleError noTsConfigMessage) w1)
         | (Some tsConfigFilePath, w1) \<Rightarrow>
             let w2 = emit (ConsoleLog (''Found tsconfig.json at: '' @ tsConfigFilePath)) w1;
                 w3 = emit (ConsoleLog (''Processing file: '' @ absoluteFilePath)) w2
             in case buildScopedProject env tsConfigFilePath absoluteFilePath w3 of
                  (Inl e, w4) \<Rightarrow> (Uncaught e, w4)
                | (Inr (sourceFile, project), w4) \<Rightarrow>
                    let w5 = emit (MigrateZodV3ToV4 (getFilePath sourceFile)) w4
                    in case migrateZodV3ToV4 env sourceFile True of
                         Threw err \<Rightarrow>
                           (Exited 1,
                            emit (ConsoleError (failureMessage (getFilePath sourceFile) err)) w5)
                       | Returned change \<Rightarrow>
                           (case save env
                                   (case change of
                                      None \<Rightarrow> project
                                    | Some text \<Rightarrow> replaceText sourceFile text project) w5 of
                              (Some e, w6) \<Rightarrow> (Uncaught e, w6)
                            | (None, w6) \<Rightarrow>
                                (Completed,
                                 emit (ConsoleLog ''File has been migrated successfully.'') w6)))"

subsection \<open>The top level of the script\<close>

definition noFilePath :: "world \<Rightarrow> outcome \<times> world" where
  "noFilePath w =
     (Exited 1,
      emit (ConsoleError ''Usage: zod-v3-to-v4 <path-to-file>'')
        (emit (ConsoleError ''Error: No file path provided.'') w))"

definition invalidMessage :: "string \<Rightarrow> string \<Rightarrow> string" where
  "invalidMessage filePath reason =
     ''Error: '' @ [CHR 0x22] @ filePath @ [CHR 0x22]
     @ '' is not a valid TypeScript file. '' @ reason"

text \<open>
  \<open>args\<close> is \<^verbatim>\<open>process.argv.slice(2)\<close>; an absent first argument and the empty string are
  both falsy. The run starts on the disk \<open>dk\<close> with an empty trace.
\<close>

definition main :: "env \<Rightarrow> string list \<Rightarrow> (string \<rightharpoonup> node) \<Rightarrow> outcome \<times> world" where
  "main env args dk =
     (let w = \<lparr>disk = dk, trace = []\<rparr>
      in case args of
           [] \<Rightarrow> noFilePath w
         | filePath # _ \<Rightarrow>
             if filePath = [] then noFilePath w
             else
               (case validateFilePath (processCwd env) filePath w of
                  (Failure reason, w1) \<Rightarrow>
                    (Exited 1, emit (ConsoleError (invalidMessage filePath reason)) w1)
                | (Success, w1) \<Rightarrow> runMigration env filePath w1))"

subsection \<open>Notions the properties are stated with\<close>

text \<open>
  The ancestor chain of a directory: the directory, its parent, the parent of that, up
  to the first path that is its own parent.
\<close>

function ancestorChain :: "string \<Rightarrow> string list" where
  "ancestorChain dir =
     (if path_dirname dir = dir then [dir] else dir # ancestorChain (path_dirname dir))"
  by pat_completeness auto
termination
proof (relation "measure (\<lambda>p. if p = ''.'' then 0 else Suc (length p))")
  show "wf (measure (\<lambda>p. if p = ''.'' then 0 else Suc (length p)))"
    by (rule wf_measure)
next
  fix dir :: string
  assume "path_dirname dir \<noteq> dir"
  from path_dirname_measure[OF this]
  show "(path_dirname dir, dir) \<in> measure (\<lambda>p. if p = ''.'' then 0 else Suc (length p))"
    by (simp only: in_measure)
qed

declare ancestorChain.simps [simp del]

text \<open>Whether the configuration file is in a directory, on the disk \<open>dk\<close>.\<close>

definition hasTsConfig :: "string \<Rightarrow> (string \<rightharpoonup> node) \<Rightarrow> string \<Rightarrow> bool" where
  "hasTsConfig wd dk dir = (statPath wd dk (path_join dir ''tsconfig.json'') \<noteq> None)"

text \<open>A path component that is the name of an entry.\<close>

definition plainName :: "string \<Rightarrow> bool" where
  "plainName s = (s \<noteq> [] \<and> s \<noteq> ''.'' \<and> s \<noteq> ''..'' \<and> CHR ''/'' \<notin> set s)"

text \<open>The directories a search looks at: the chain up to the first hit, the hit included.\<close>

fun probedDirs :: "(string \<Rightarrow> bool) \<Rightarrow> string list \<Rightarrow> string list" where
  "probedDirs has [] = []"
| "probedDirs has (d # ds) = (if has d then [d] else d # probedDirs has ds)"

text \<open>The events of the search for the configuration, from the start directory.\<close>

definition probeEvents :: "string \<Rightarrow> (string \<rightharpoonup> node) \<Rightarrow> string \<Rightarrow> event list" where
  "probeEvents wd dk startDir =
     map (\<lambda>d. ExistsSync (path_join d ''tsconfig.json''))
       (probedDirs (hasTsConfig wd dk) (ancestorChain (path_resolve wd startDir)))"

text \<open>The two lines logged once the configuration is found.\<close>

definition startEvents :: "string \<Rightarrow> string \<Rightarrow> event list" where
  "startEvents cfg target =
     [ConsoleLog (''Found tsconfig.json at: '' @ cfg), ConsoleLog (''Processing file: '' @ target)]"

text \<open>The events of lines 59 to 70, when the project opens on \<open>files\<close>.\<close>

definition builderEvents :: "string \<Rightarrow> sourceFile list \<Rightarrow> string \<Rightarrow> event list" where
  "builderEvents cfg files target =
     NewProject cfg # map (\<lambda>f. RemoveSourceFile (getFilePath f)) files @ [AddSourceFileAtPath target]"

text \<open>
  The whole pipeline succeeds: a path is given, it passes the validation, a configuration
  is found above it, the project is built on the target file, the migration returns, and
  the file can be written if the migration has changed it.
\<close>

definition pipelineSucceeds :: "env \<Rightarrow> string list \<Rightarrow> (string \<rightharpoonup> node) \<Rightarrow> bool" where
  "pipelineSucceeds env args dk =
     (case args of
        [] \<Rightarrow> False
      | p # _ \<Rightarrow>
          p \<noteq> []
          \<and> fst (validateFilePath (processCwd env) p \<lparr>disk = dk, trace = []\<rparr>) = Success
          \<and> (case fst (findClosestTsConfig (processCwd env)
                         (path_dirname (path_resolve (processCwd env) p)) \<lparr>disk = dk, trace = []\<rparr>) of
                None \<Rightarrow> False
              | Some cfg \<Rightarrow>
                  (case fst (buildScopedProject env cfg (path_resolve (processCwd env) p)
                               \<lparr>disk = dk, trace = []\<rparr>) of
                     Inl e \<Rightarrow> False
                   | Inr (sf, pr) \<Rightarrow>
                       (case migrateZodV3ToV4 env sf True of
                          Threw err \<Rightarrow> False
                        | Returned None \<Rightarrow> True
                        | Returned (Some text) \<Rightarrow> canWrite env (getFilePath sf)))))"

text \<open>
  Sample inputs: a project in \<^verbatim>\<open>/home/u/proj\<close> whose configuration sits one directory
  above and loads the two files of \<^verbatim>\<open>src\<close>, beside a directory that is named like a
  source file; a migration that appends a mark, one that throws, a configuration that
  the engine cannot open, and a migration that leaves the file alone on a disk that
  cannot be written.
\<close>

definition sampleDisk :: "string \<rightharpoonup> node" where
  "sampleDisk =
     [''/home'' \<mapsto> Dir,
      ''/home/u'' \<mapsto> Dir,
      ''/home/u/tsconfig.json'' \<mapsto> File ''{}'',
      ''/home/u/proj'' \<mapsto> Dir,
      ''/home/u/proj/types.ts'' \<mapsto> Dir,
      ''/home/u/proj/src'' \<mapsto> Dir,
      ''/home/u/proj/src/a.ts'' \<mapsto> File ''import { z } from zod'',
      ''/home/u/proj/src/b.ts'' \<mapsto> File ''export {}'']"

definition sampleEnv :: env where
  "sampleEnv =
     \<lparr>processCwd = ''/home/u/proj'',
      tsConfigFiles =
        (\<lambda>cfg. Inr [\<lparr>getFilePath = ''/home/u/proj/src/a.ts'',
                      getFullText = ''import { z } from zod'', isSaved = True\<rparr>,
                     \<lparr>getFilePath = ''/home/u/proj/src/b.ts'',
                      getFullText = ''export {}'', isSaved = True\<rparr>]),
      canParse = (\<lambda>cfg content. True),
      migrateZodV3ToV4 = (\<lambda>sf opt. Returned (Some (getFullText sf @ '' // v4''))),
      canWrite = (\<lambda>q. True)\<rparr>"

definition throwingEnv :: env where
  "throwingEnv = sampleEnv\<lparr>migrateZodV3ToV4 := (\<lambda>sf opt. Threw (Some ''boom''))\<rparr>"


definition idleEnv :: env where
  "idleEnv = sampleEnv\<lparr>migrateZodV3ToV4 := (\<lambda>sf opt. Returned None), canWrite := (\<lambda>q. False)\<rparr>"

section \<open>Properties\<close>

subsection \<open>The path functions on examples\<close>

text \<open>The examples of the node documentation, and the paths the script meets.\<close>

lemma path_extname_examples:
  "path_extname ''index.html'' = ''.html''"
  "path_extname ''index.coffee.md'' = ''.md''"
  "path_extname ''index.'' = ''.''"
  "path_extname ''index'' = []"
  "path_extname ''.index'' = []"
  "path_extname ''.index.md'' = ''.md''"
  "path_extname ''src/a.ts/'' = ''.ts''"
  "path_extname ''..'' = []"
  by code_simp+

lemma path_dirname_examples:
  "path_dirname ''/foo/bar/baz/asdf/quux'' = ''/foo/bar/baz/asdf''"
  "path_dirname ''/foo'' = ''/''"
  "path_dirname ''/'' = ''/''"
  "path_dirname ''foo'' = ''.''"
  "path_dirname ''.'' = ''.''"
  "path_dirname ''/foo/bar/'' = ''/foo''"
  by code_simp+

lemma path_join_examples:
  "path_join ''/foo/bar'' ''tsconfig.json'' = ''/foo/bar/tsconfig.json''"
  "path_join ''/'' ''tsconfig.json'' = ''/tsconfig.json''"
  "path_join ''/foo/bar'' ''../baz'' = ''/foo/baz''"
  "path_join [] [] = ''.''"
  by code_simp+

lemma path_resolve_examples:
  "path_resolve ''/foo/bar'' ''./baz'' = ''/foo/bar/baz''"
  "path_resolve ''/foo/bar'' ''/tmp/file/'' = ''/tmp/file''"
  "path_resolve ''/foo/bar'' ''../../../x.ts'' = ''/x.ts''"
  "path_resolve ''/foo/bar'' [] = ''/foo/bar''"
  by code_simp+

subsection \<open>The path validator\<close>

lemma reasons_differ: "reasonInvalidExtension \<noteq> reasonFileNotFound"
  by (simp add: reasonInvalidExtension_def reasonFileNotFound_def)

lemma validateFilePath_invalid:
  "path_extname p \<notin> set validExtensions \<Longrightarrow>
   validateFilePath wd p w = (Failure reasonInvalidExtension, w)"
  by (simp add: validateFilePath_def)

lemma validateFilePath_valid:
  "path_extname p \<in> set validExtensions \<Longrightarrow>
   validateFilePath wd p w =
     (if statPath wd (disk w) p = None then Failure reasonFileNotFound else Success,
      emit (ExistsSync p) w)"
  by (simp add: validateFilePath_def existsSync_def)

text \<open>
  What the validator asks the file system, on the paths of the sample disk: a file and a
  directory are there; a file followed by a separator, a path through a directory that
  is missing, and the empty path name nothing.
\<close>

lemma statPath_examples:
  "statPath ''/home/u/proj'' sampleDisk ''src/a.ts'' = Some (File ''import { z } from zod'')"
  "statPath ''/home/u/proj'' sampleDisk ''./src/../src//a.ts'' = Some (File ''import { z } from zod'')"
  "statPath ''/home/u/proj'' sampleDisk ''/home/u/proj/src'' = Some Dir"
  "statPath ''/home/u/proj'' sampleDisk ''src/a.ts/'' = None"
  "statPath ''/home/u/proj'' sampleDisk ''x/../src/a.ts'' = None"
  "statPath ''/home/u/proj'' sampleDisk ''src/c.ts'' = None"
  "statPath ''/home/u/proj'' sampleDisk [] = None"
  by code_simp+

text \<open>
  Claim C5, as stated: the validator fails with the file-not-found reason when no file
  exists at the path. It does not when a directory is there: no file exists at
  \<^verbatim>\<open>types.ts\<close>, and the validator succeeds.
\<close>

theorem validateFilePath_no_file_counterexample:
  "statPath ''/home/u/proj'' sampleDisk ''types.ts'' = Some Dir
   \<and> fst (validateFilePath ''/home/u/proj'' ''types.ts'' \<lparr>disk = sampleDisk, trace = []\<rparr>)
       = Success"
  by code_simp

text \<open>
  Claim C5, amended: for every path string, the validator fails with the
  invalid-extension reason exactly when the extension of the path is not one of
  \<^verbatim>\<open>.ts\<close>, \<^verbatim>\<open>.tsx\<close>, \<^verbatim>\<open>.js\<close>, \<^verbatim>\<open>.jsx\<close>; with a recognized extension it fails
  with the file-not-found reason exactly when the path names nothing, neither a file nor
  a directory, and succeeds otherwise. It has no side effect: the disk is as it was, and
  all it leaves in the trace is its one look at the path.
\<close>

theorem validateFilePath_cases:
  "(fst (validateFilePath wd p w) = Failure reasonInvalidExtension
      \<longleftrightarrow> path_extname p \<notin> set validExtensions)
   \<and> (fst (validateFilePath wd p w) = Failure reasonFileNotFound
      \<longleftrightarrow> path_extname p \<in> set validExtensions \<and> statPath wd (disk w) p = None)
   \<and> (fst (validateFilePath wd p w) = Success
      \<longleftrightarrow> path_extname p \<in> set validExtensions \<and> statPath wd (disk w) p \<noteq> None)
   \<and> disk (snd (validateFilePath wd p w)) = disk w
   \<and> (\<exists>es. trace (snd (validateFilePath wd p w)) = trace w @ es \<and> set es \<subseteq> {ExistsSync p})"
proof (cases "path_extname p \<in> set validExtensions")
  case True
  from validateFilePath_valid[OF True, of wd w] reasons_differ True
  show ?thesis by (auto simp: emit_def)
next
  case False
  from validateFilePath_invalid[OF False, of wd w] reasons_differ False
  show ?thesis by auto
qed

theorem validateFilePath_cases_witness:
  "path_extname ''src/a.ts/'' \<in> set validExtensions
   \<and> statPath ''/home/u/proj'' sampleDisk ''src/a.ts/'' = None
   \<and> fst (validateFilePath ''/home/u/proj'' ''src/a.ts/'' \<lparr>disk = sampleDisk, trace = []\<rparr>)
       = Failure reasonFileNotFound
   \<and> path_extname ''src/a.ts'' \<in> set validExtensions
   \<and> statPath ''/home/u/proj'' sampleDisk ''src/a.ts'' \<noteq> None
   \<and> fst (validateFilePath ''/home/u/proj'' ''src/a.ts'' \<lparr>disk = sampleDisk, trace = []\<rparr>)
       = Success"
proof -
  have e: "path_extname ''src/a.ts/'' \<in> set validExtensions"
    "path_extname ''src/a.ts'' \<in> set validExtensions"
    by code_simp+
  have n: "statPath ''/home/u/proj'' sampleDisk ''src/a.ts/'' = None"
    "statPath ''/home/u/proj'' sampleDisk ''src/a.ts'' \<noteq> None"
    by code_simp+
  from validateFilePath_cases [of "''/home/u/proj''" "''src/a.ts/''" "\<lparr>disk = sampleDisk, trace = []\<rparr>"]
       validateFilePath_cases [of "''/home/u/proj''" "''src/a.ts''" "\<lparr>disk = sampleDisk, trace = []\<rparr>"]
       e n
  show ?thesis by simp
qed

text \<open>
  Claim C10. A path without a recognized extension is rejected with the
  invalid-extension reason, which is not the file-not-found reason, whatever is or is not
  on the disk, so also when nothing exists at the path. The check reads the path string
  alone: the world comes back as it was, with no look at the file system in its trace.
\<close>

theorem invalid_extension_first:
  "path_extname p \<notin> set validExtensions \<Longrightarrow>
   validateFilePath wd p w = (Failure reasonInvalidExtension, w)
   \<and> Failure reasonInvalidExtension \<noteq> Failure reasonFileNotFound"
  using reasons_differ by (simp add: validateFilePath_invalid)

theorem invalid_extension_first_witness:
  "path_extname ''notes.md'' \<notin> set validExtensions
   \<and> statPath ''/w'' Map.empty ''notes.md'' = None
   \<and> validateFilePath ''/w'' ''notes.md'' \<lparr>disk = Map.empty, trace = []\<rparr>
       = (Failure reasonInvalidExtension, \<lparr>disk = Map.empty, trace = []\<rparr>)"
proof -
  have h: "path_extname ''notes.md'' \<notin> set validExtensions"
    by (simp add: path_extname_def validExtensions_def)
  have n: "statPath ''/w'' Map.empty ''notes.md'' = None"
    by code_simp
  from invalid_extension_first [OF h, of "''/w''" "\<lparr>disk = Map.empty, trace = []\<rparr>"] h n
  show ?thesis by simp
qed

text \<open>
  Claim C6, as stated: whenever the validator succeeds, the path denotes an existing
  regular file, not a directory. It fails on a directory whose name ends in \<^verbatim>\<open>.ts\<close>:
  \<^verbatim>\<open>fs.existsSync\<close> is true of a directory.
\<close>

theorem validated_directory_counterexample:
  "fst (validateFilePath ''/w'' ''lib.ts''
          \<lparr>disk = [''/w'' \<mapsto> Dir, ''/w/lib.ts'' \<mapsto> Dir], trace = []\<rparr>)
     = Success
   \<and> statPath ''/w'' [''/w'' \<mapsto> Dir, ''/w/lib.ts'' \<mapsto> Dir] ''lib.ts'' = Some Dir"
  by code_simp

text \<open>
  Claim C6, amended: whenever the validator succeeds, something exists at the path, a
  file or a directory, and the extension of the path is a recognized one.
\<close>

theorem validated_path_exists:
  "fst (validateFilePath wd p w) = Success \<Longrightarrow>
   statPath wd (disk w) p \<noteq> None \<and> path_extname p \<in> set validExtensions"
  by (cases "path_extname p \<in> set validExtensions")
     (auto simp: validateFilePath_valid validateFilePath_invalid split: if_splits)

theorem validated_path_exists_witness:
  "fst (validateFilePath ''/w'' ''a.tsx''
          \<lparr>disk = [''/w'' \<mapsto> Dir, ''/w/a.tsx'' \<mapsto> File ''x''], trace = []\<rparr>)
     = Success
   \<and> statPath ''/w'' [''/w'' \<mapsto> Dir, ''/w/a.tsx'' \<mapsto> File ''x''] ''a.tsx'' = Some (File ''x'')
   \<and> path_extname ''a.tsx'' \<in> set validExtensions"
proof -
  have h: "fst (validateFilePath ''/w'' ''a.tsx''
                 \<lparr>disk = [''/w'' \<mapsto> Dir, ''/w/a.tsx'' \<mapsto> File ''x''], trace = []\<rparr>) = Success"
    by code_simp
  have n: "statPath ''/w'' [''/w'' \<mapsto> Dir, ''/w/a.tsx'' \<mapsto> File ''x''] ''a.tsx'' = Some (File ''x'')"
    by code_simp
  from validated_path_exists [OF h] h n show ?thesis by simp
qed

subsection \<open>The configuration locator\<close>

lemma tsConfigWalk_unfold:
  "tsConfigWalk wd dir w =
     (if hasTsConfig wd (disk w) dir
      then (Some (path_join dir ''tsconfig.json''),
            emit (ExistsSync (path_join dir ''tsconfig.json'')) w)
      else if path_dirname dir = dir
      then (None, emit (ExistsSync (path_join dir ''tsconfig.json'')) w)
      else tsConfigWalk wd (path_dirname dir)
             (emit (ExistsSync (path_join dir ''tsconfig.json'')) w))"
  by (subst tsConfigWalk.simps) (simp add: existsSync_def hasTsConfig_def Let_def)

lemma tsConfigWalk_eq:
  "tsConfigWalk wd dir w =
     (map_option (\<lambda>d. path_join d ''tsconfig.json'')
        (find (hasTsConfig wd (disk w)) (ancestorChain dir)),
      w\<lparr>trace := trace w @
           map (\<lambda>d. ExistsSync (path_join d ''tsconfig.json''))
             (probedDirs (hasTsConfig wd (disk w)) (ancestorChain dir))\<rparr>)"
proof (induction wd dir w rule: tsConfigWalk.induct)
  case (1 wd dir w)
  let ?w' = "emit (ExistsSync (path_join dir ''tsconfig.json'')) w"
  have ex: "existsSync wd (path_join dir ''tsconfig.json'') w = (hasTsConfig wd (disk w) dir, ?w')"
    by (simp add: existsSync_def hasTsConfig_def)
  show ?case
  proof (cases "hasTsConfig wd (disk w) dir")
    case True
    then show ?thesis
      by (simp add: tsConfigWalk_unfold[of wd dir w] ancestorChain.simps[of dir] emit_def)
  next
    case noCfg: False
    show ?thesis
    proof (cases "path_dirname dir = dir")
      case True
      with noCfg show ?thesis
        by (simp add: tsConfigWalk_unfold[of wd dir w] ancestorChain.simps[of dir] emit_def)
    next
      case False
      have IH: "tsConfigWalk wd (path_dirname dir) ?w' =
         (map_option (\<lambda>d. path_join d ''tsconfig.json'')
            (find (hasTsConfig wd (disk ?w')) (ancestorChain (path_dirname dir))),
          ?w'\<lparr>trace := trace ?w' @
               map (\<lambda>d. ExistsSync (path_join d ''tsconfig.json''))
                 (probedDirs (hasTsConfig wd (disk ?w')) (ancestorChain (path_dirname dir)))\<rparr>)"
        using "1.IH"[OF refl refl ex[symmetric] _ refl] noCfg False by simp
      have fnd: "tsConfigWalk wd dir w = tsConfigWalk wd (path_dirname dir) ?w'"
        using noCfg False by (simp add: tsConfigWalk_unfold[of wd dir w])
      show ?thesis
        unfolding fnd IH using noCfg False
        by (simp add: ancestorChain.simps[of dir] emit_def)
    qed
  qed
qed

lemma findClosestTsConfig_eq:
  "findClosestTsConfig wd startDir w =
     (map_option (\<lambda>d. path_join d ''tsconfig.json'')
        (find (hasTsConfig wd (disk w)) (ancestorChain (path_resolve wd startDir))),
      w\<lparr>trace := trace w @
           map (\<lambda>d. ExistsSync (path_join d ''tsconfig.json''))
             (probedDirs (hasTsConfig wd (disk w)) (ancestorChain (path_resolve wd startDir)))\<rparr>)"
  by (simp add: findClosestTsConfig_def tsConfigWalk_eq)


lemma path_dirname_absolute:
  "\<exists>n. path_dirname (CHR ''/'' # cs) = CHR ''/'' # n"
  by (simp add: path_dirname_Cons Let_def)



lemma length_probedDirs: "length (probedDirs has ds) \<le> length ds"
  by (induction ds) auto

lemma path_dirname_shorter:
  assumes "path_dirname (CHR ''/'' # cs) \<noteq> CHR ''/'' # cs"
  shows "length (path_dirname (CHR ''/'' # cs)) < length (CHR ''/'' # cs)"
proof -
  from path_dirname_absolute[of cs] obtain n where n: "path_dirname (CHR ''/'' # cs) = CHR ''/'' # n"
    by blast
  from path_dirname_measure[OF assms] show ?thesis
    unfolding n by (simp split: if_splits)
qed

lemma funpow_dirname_absolute:
  "\<exists>n. (path_dirname ^^ k) (CHR ''/'' # cs) = CHR ''/'' # n"
proof (induction k)
  case 0
  show ?case by simp
next
  case (Suc k)
  then obtain n where "(path_dirname ^^ k) (CHR ''/'' # cs) = CHR ''/'' # n" by blast
  with path_dirname_absolute[of n] show ?case by simp
qed

lemma ancestorChain_steps:
  "\<exists>n. length (ancestorChain dir) = Suc n
       \<and> n \<le> (if dir = ''.'' then 0 else Suc (length dir))
       \<and> path_dirname ((path_dirname ^^ n) dir) = (path_dirname ^^ n) dir
       \<and> (\<forall>k<n. path_dirname ((path_dirname ^^ k) dir) \<noteq> (path_dirname ^^ k) dir)"
proof (induction dir rule: ancestorChain.induct)
  case (1 dir)
  show ?case
  proof (cases "path_dirname dir = dir")
    case True
    then have "length (ancestorChain dir) = Suc 0"
      by (simp add: ancestorChain.simps[of dir])
    with True show ?thesis by simp
  next
    case False
    from "1.IH"[OF False] obtain n where
      len: "length (ancestorChain (path_dirname dir)) = Suc n" and
      le: "n \<le> (if path_dirname dir = ''.'' then 0 else Suc (length (path_dirname dir)))" and
      fp: "path_dirname ((path_dirname ^^ n) (path_dirname dir)) = (path_dirname ^^ n) (path_dirname dir)" and
      before: "\<forall>k<n. path_dirname ((path_dirname ^^ k) (path_dirname dir))
                     \<noteq> (path_dirname ^^ k) (path_dirname dir)"
      by blast
    from False len have "length (ancestorChain dir) = Suc (Suc n)"
      by (simp add: ancestorChain.simps[of dir])
    moreover from le path_dirname_measure[OF False]
    have "Suc n \<le> (if dir = ''.'' then 0 else Suc (length dir))" by linarith
    moreover from fp have "path_dirname ((path_dirname ^^ Suc n) dir) = (path_dirname ^^ Suc n) dir"
      by (simp only: funpow_Suc_right o_apply)
    moreover have "\<forall>k<Suc n. path_dirname ((path_dirname ^^ k) dir) \<noteq> (path_dirname ^^ k) dir"
    proof (intro allI impI)
      fix k assume k: "k < Suc n"
      show "path_dirname ((path_dirname ^^ k) dir) \<noteq> (path_dirname ^^ k) dir"
      proof (cases k)
        case 0
        with False show ?thesis by simp
      next
        case (Suc j)
        with k before have "path_dirname ((path_dirname ^^ j) (path_dirname dir))
                     \<noteq> (path_dirname ^^ j) (path_dirname dir)" by simp
        then show ?thesis unfolding Suc by (simp only: funpow_Suc_right o_apply simp_thms)
      qed
    qed
    ultimately show ?thesis by blast
  qed
qed

text \<open>
  On a normalized absolute path \<^verbatim>\<open>/s1/.../sn\<close> the chain is what one expects: the
  path itself, then \<^verbatim>\<open>/s1/.../s(n-1)\<close>, and so on down to the root.
\<close>

lemma joinSlash_snoc:
  "segs \<noteq> [] \<Longrightarrow> joinSlash (segs @ [s]) = joinSlash segs @ CHR ''/'' # s"
  by (induction segs rule: joinSlash.induct) auto

lemma joinSlash_nonempty:
  "segs \<noteq> [] \<Longrightarrow> \<forall>s \<in> set segs. s \<noteq> [] \<Longrightarrow> joinSlash segs \<noteq> []"
  by (induction segs rule: joinSlash.induct) auto

lemma path_dirname_segments:
  assumes s: "s \<noteq> []" "CHR ''/'' \<notin> set s" and segs: "\<forall>t \<in> set segs. t \<noteq> []"
  shows "path_dirname (CHR ''/'' # joinSlash (segs @ [s])) = CHR ''/'' # joinSlash segs"
proof -
  from s have hd_s: "hd (rev s) \<noteq> CHR ''/''"
    by (metis hd_rev last_in_set)
  from s have dw1: "\<And>xs. dropWhile (\<lambda>c. c = CHR ''/'') (rev s @ xs) = rev s @ xs"
    using hd_s by (cases "rev s") auto
  from s have dw2: "\<And>xs. dropWhile (\<lambda>c. c \<noteq> CHR ''/'') (rev s @ CHR ''/'' # xs) = CHR ''/'' # xs"
    by (auto simp: dropWhile_append)
  from s have dw3: "dropWhile (\<lambda>c. c \<noteq> CHR ''/'') (rev s) = []"
    by auto
  show ?thesis
  proof (cases "segs = []")
    case True
    then show ?thesis
      using dw1[of "[]"] dw3 by (simp add: path_dirname_Cons)
  next
    case False
    from joinSlash_nonempty[OF False segs] have ne: "joinSlash segs \<noteq> []" .
    have js: "joinSlash (segs @ [s]) = joinSlash segs @ CHR ''/'' # s"
      by (rule joinSlash_snoc[OF False])
    have r: "dropWhile (\<lambda>c. c \<noteq> CHR ''/'')
               (dropWhile (\<lambda>c. c = CHR ''/'') (rev (joinSlash (segs @ [s]))))
             = CHR ''/'' # rev (joinSlash segs)"
      unfolding js using dw1[of "CHR ''/'' # rev (joinSlash segs)"] dw2[of "rev (joinSlash segs)"]
      by simp
    show ?thesis
      unfolding path_dirname_Cons r Let_def using ne
      by (simp add: js)
  qed
qed

lemma ancestorChain_segments:
  assumes "\<forall>t \<in> set segs. t \<noteq> [] \<and> CHR ''/'' \<notin> set t"
  shows "ancestorChain (CHR ''/'' # joinSlash segs)
         = map (\<lambda>k. CHR ''/'' # joinSlash (take k segs)) (rev [0..<Suc (length segs)])"
  using assms
proof (induction segs rule: rev_induct)
  case Nil
  have "path_dirname ''/'' = ''/''" by (simp add: path_dirname_Cons)
  then show ?case by (simp add: ancestorChain.simps[of "''/''"])
next
  case (snoc s segs)
  let ?p = "CHR ''/'' # joinSlash (segs @ [s])"
  from snoc.prems have s: "s \<noteq> []" "CHR ''/'' \<notin> set s" and segs: "\<forall>t \<in> set segs. t \<noteq> []"
    and segs': "\<forall>t \<in> set segs. t \<noteq> [] \<and> CHR ''/'' \<notin> set t"
    by auto
  have par: "path_dirname ?p = CHR ''/'' # joinSlash segs"
    by (rule path_dirname_segments[OF s segs])
  have "joinSlash (segs @ [s]) \<noteq> joinSlash segs"
  proof (cases "segs = []")
    case True
    with s show ?thesis by simp
  next
    case False
    then show ?thesis by (simp add: joinSlash_snoc)
  qed
  with par have ne: "path_dirname ?p \<noteq> ?p" by simp
  have tk: "map (\<lambda>k. CHR ''/'' # joinSlash (take k (segs @ [s]))) (rev [0..<Suc (length segs)])
          = map (\<lambda>k. CHR ''/'' # joinSlash (take k segs)) (rev [0..<Suc (length segs)])"
    by (rule map_cong) auto
  from ne have "ancestorChain ?p = ?p # ancestorChain (path_dirname ?p)"
    by (simp add: ancestorChain.simps[of ?p])
  also have "\<dots> = ?p # map (\<lambda>k. CHR ''/'' # joinSlash (take k segs)) (rev [0..<Suc (length segs)])"
    unfolding par using snoc.IH[OF segs'] by simp
  finally show ?case
    using tk by simp
qed



text \<open>
  Claim C4. The walk ends on every directory: after at most \<open>length dir + 1\<close> steps
  to the parent the path is its own parent, and the loop looks at no more directories
  than that. Every step before changes the path, and makes an absolute path strictly
  shorter.
\<close>

theorem upward_walk_terminates:
  "\<exists>n \<le> Suc (length dir).
      path_dirname ((path_dirname ^^ n) dir) = (path_dirname ^^ n) dir
      \<and> (\<forall>k<n. path_dirname ((path_dirname ^^ k) dir) \<noteq> (path_dirname ^^ k) dir
               \<and> (dir \<noteq> [] \<and> hd dir = CHR ''/''
                    \<longrightarrow> length (path_dirname ((path_dirname ^^ k) dir)) < length ((path_dirname ^^ k) dir)))
      \<and> (\<exists>es. trace (snd (tsConfigWalk wd dir w)) = trace w @ es \<and> length es \<le> Suc n)"
proof -
  from ancestorChain_steps[of dir] obtain n where
    len: "length (ancestorChain dir) = Suc n" and
    le: "n \<le> (if dir = ''.'' then 0 else Suc (length dir))" and
    fp: "path_dirname ((path_dirname ^^ n) dir) = (path_dirname ^^ n) dir" and
    before: "\<forall>k<n. path_dirname ((path_dirname ^^ k) dir) \<noteq> (path_dirname ^^ k) dir"
    by blast
  from le have "n \<le> Suc (length dir)" by (simp split: if_splits)
  moreover have "\<exists>es. trace (snd (tsConfigWalk wd dir w)) = trace w @ es \<and> length es \<le> Suc n"
    using length_probedDirs[of "hasTsConfig wd (disk w)" "ancestorChain dir"] len
    by (simp add: tsConfigWalk_eq)
  moreover have "\<forall>k<n. path_dirname ((path_dirname ^^ k) dir) \<noteq> (path_dirname ^^ k) dir
               \<and> (dir \<noteq> [] \<and> hd dir = CHR ''/''
                    \<longrightarrow> length (path_dirname ((path_dirname ^^ k) dir)) < length ((path_dirname ^^ k) dir))"
  proof (intro allI impI conjI)
    fix k assume k: "k < n"
    with before show ne: "path_dirname ((path_dirname ^^ k) dir) \<noteq> (path_dirname ^^ k) dir" by simp
    assume "dir \<noteq> [] \<and> hd dir = CHR ''/''"
    then obtain cs where "dir = CHR ''/'' # cs" by (cases dir) auto
    with funpow_dirname_absolute[of k cs] obtain m where m: "(path_dirname ^^ k) dir = CHR ''/'' # m"
      by blast
    from ne path_dirname_shorter[of m]
    show "length (path_dirname ((path_dirname ^^ k) dir)) < length ((path_dirname ^^ k) dir)"
      unfolding m by blast
  qed
  ultimately show ?thesis using fp by blast
qed

theorem upward_walk_terminates_witness:
  "\<exists>n \<le> Suc (length ''/home/u'').
      path_dirname ((path_dirname ^^ n) ''/home/u'') = (path_dirname ^^ n) ''/home/u''
      \<and> (\<exists>es. trace (snd (tsConfigWalk ''/home/u/proj'' ''/home/u'' \<lparr>disk = sampleDisk, trace = []\<rparr>))
                 = trace \<lparr>disk = sampleDisk, trace = []\<rparr> @ es
               \<and> length es \<le> Suc n)"
  using upward_walk_terminates [of "''/home/u''" "''/home/u/proj''" "\<lparr>disk = sampleDisk, trace = []\<rparr>"]
  by blast

subsection \<open>Reading a resolved path\<close>

text \<open>
  The script hands the engine the resolved path of the target. Such a path is made of
  names only, so the file the system finds there is the entry of the disk at that very
  path, the one a later write to the path replaces.
\<close>

lemma splitSlash_slash_free: "\<forall>s \<in> set (splitSlash x). CHR ''/'' \<notin> set s"
  by (induction x) (auto split: list.splits)

lemma splitSlash_not_Nil: "splitSlash x \<noteq> []"
  by (induction x) (auto split: list.splits)

lemma splitSlash_plain: "CHR ''/'' \<notin> set s \<Longrightarrow> splitSlash (s @ CHR ''/'' # r) = s # splitSlash r"
  by (induction s) (auto split: list.splits)

lemma splitSlash_single: "CHR ''/'' \<notin> set s \<Longrightarrow> splitSlash s = [s]"
  by (induction s) (auto split: list.splits)

lemma splitSlash_joinSlash:
  "segs \<noteq> [] \<Longrightarrow> \<forall>s \<in> set segs. CHR ''/'' \<notin> set s \<Longrightarrow> splitSlash (joinSlash segs) = segs"
  by (induction segs rule: joinSlash.induct) (auto simp: splitSlash_plain splitSlash_single)

lemma normalizeSegments_skip:
  "x = [] \<or> x = ''.'' \<Longrightarrow> normalizeSegments a acc (x # xs) = normalizeSegments a acc xs"
  by (simp only: normalizeSegments.simps if_True)

lemma normalizeSegments_up:
  "normalizeSegments False acc (''..'' # xs) =
     normalizeSegments False (case acc of [] \<Rightarrow> [] | b # bs \<Rightarrow> if b = ''..'' then acc else bs) xs"
proof -
  have n: "\<not> (''..'' = [] \<or> ''..'' = ''.'')" by simp
  show ?thesis
    by (cases acc) (simp_all only: normalizeSegments.simps n if_False if_True refl list.case if_distrib[of "\<lambda>acc. normalizeSegments False acc xs"] cong: if_cong)
qed

lemma normalizeSegments_push:
  "x \<noteq> [] \<Longrightarrow> x \<noteq> ''.'' \<Longrightarrow> x \<noteq> ''..'' \<Longrightarrow>
   normalizeSegments a acc (x # xs) = normalizeSegments a (x # acc) xs"
  by (simp only: normalizeSegments.simps simp_thms if_False)


lemma normalizeSegments_plain:
  "\<forall>s \<in> set acc. plainName s \<Longrightarrow> \<forall>s \<in> set xs. CHR ''/'' \<notin> set s \<Longrightarrow>
   \<forall>s \<in> set (normalizeSegments False acc xs). plainName s"
proof (induction xs arbitrary: acc)
  case Nil
  then show ?case by (simp only: normalizeSegments.simps set_rev)
next
  case (Cons x xs)
  from Cons.prems(2) have xs: "\<forall>s \<in> set xs. CHR ''/'' \<notin> set s" and x: "CHR ''/'' \<notin> set x"
    by simp_all
  show ?case
  proof (cases "x = [] \<or> x = ''.''")
    case True
    from Cons.IH[OF Cons.prems(1) xs] show ?thesis
      by (simp only: normalizeSegments_skip[OF True])
  next
    case False
    show ?thesis
    proof (cases "x = ''..''")
      case True
      have "\<forall>s \<in> set (case acc of [] \<Rightarrow> [] | b # bs \<Rightarrow> if b = ''..'' then acc else bs). plainName s"
        using Cons.prems(1) by (cases acc) (auto simp del: normalizeSegments.simps)
      from Cons.IH[OF this xs] show ?thesis
        unfolding True by (simp only: normalizeSegments_up)
    next
      case F2: False
      from False F2 x have "plainName x" unfolding plainName_def by blast
      with Cons.prems(1) have "\<forall>s \<in> set (x # acc). plainName s" by simp
      from False have x1: "x \<noteq> []" and x2: "x \<noteq> ''.''" by blast+
      from Cons.IH[OF \<open>\<forall>s \<in> set (x # acc). plainName s\<close> xs] show ?thesis
        by (simp only: normalizeSegments_push[OF x1 x2 F2])
    qed
  qed
qed

lemma walkPath_plain:
  "\<forall>s \<in> set segs. plainName s \<Longrightarrow> walkPath dk cur segs = Some n \<Longrightarrow> nodeAt dk (cur @ segs) = Some n"
proof (induction segs arbitrary: cur)
  case Nil
  then show ?case by simp
next
  case (Cons s segs)
  from Cons.prems(1) have s: "s \<noteq> []" "s \<noteq> ''.''" "s \<noteq> ''..''" by (auto simp: plainName_def)
  from Cons.prems(2) s have "walkPath dk (cur @ [s]) segs = Some n"
    by (auto split: option.splits node.splits)
  from Cons.IH[OF _ this] Cons.prems(1) show ?case by simp
qed

lemma statPath_resolved:
  assumes wd: "wd \<noteq> []" "hd wd = CHR ''/''"
    and st: "statPath wd dk (path_resolve wd p) = Some n"
    and nr: "path_resolve wd p \<noteq> ''/''"
  shows "dk (path_resolve wd p) = Some n"
proof -
  define x where "x = (if p \<noteq> [] \<and> hd p = CHR ''/'' then p @ ''/''
                        else wd @ CHR ''/'' # (if p = [] then [] else p @ ''/''))"
  define segs where "segs = normalizeSegments False [] (splitSlash x)"
  have r: "path_resolve wd p = CHR ''/'' # joinSlash segs"
    using wd by (simp add: path_resolve_def normalizeString_def segs_def x_def Let_def)
  have plain: "\<forall>s \<in> set segs. plainName s"
    unfolding segs_def by (rule normalizeSegments_plain) (simp_all add: splitSlash_slash_free)
  from nr r have ne: "segs \<noteq> []" by auto
  from plain have sf: "\<forall>s \<in> set segs. CHR ''/'' \<notin> set s" by (simp add: plainName_def)
  have sp: "splitSlash (CHR ''/'' # joinSlash segs) = [] # segs"
    using splitSlash_joinSlash[OF ne sf] by simp
  from st have "walkPath dk [] ([] # segs) = Some n"
    unfolding r statPath_def sp[symmetric] by (simp split: if_splits)
  then have "walkPath dk [] segs = Some n"
    by (simp add: nodeAt_def)
  from walkPath_plain[OF plain this] ne show ?thesis
    unfolding r by (simp add: nodeAt_def)
qed

lemma statPath_root: "statPath wd dk ''/'' = Some Dir"
  by (simp add: statPath_def nodeAt_def)

subsection \<open>The scoped project\<close>

lemma removeSourceFile_pair:
  "removeSourceFile f (pr, w) =
     (pr\<lparr>sourceFiles := filter (\<lambda>g. getFilePath g \<noteq> getFilePath f) (sourceFiles pr)\<rparr>,
      emit (RemoveSourceFile (getFilePath f)) w)"
  by (simp add: removeSourceFile_def)

lemma fold_removeSourceFile:
  "fold removeSourceFile fs (pr, w) =
     (pr\<lparr>sourceFiles := filter (\<lambda>g. getFilePath g \<notin> getFilePath ` set fs) (sourceFiles pr)\<rparr>,
      w\<lparr>trace := trace w @ map (\<lambda>f. RemoveSourceFile (getFilePath f)) fs\<rparr>)"
proof (induction fs arbitrary: pr w)
  case Nil
  show ?case by simp
next
  case (Cons f fs)
  have "(\<lambda>g. getFilePath g \<notin> getFilePath ` set fs \<and> getFilePath g \<noteq> getFilePath f)
        = (\<lambda>g. getFilePath g \<noteq> getFilePath f \<and> getFilePath g \<notin> getFilePath ` set fs)"
    by auto
  then show ?case
    by (simp add: removeSourceFile_pair Cons.IH emit_def)
qed

lemma remove_all_loaded:
  "fold removeSourceFile (getSourceFiles pr) (pr, w) =
     (pr\<lparr>sourceFiles := []\<rparr>,
      w\<lparr>trace := trace w @ map (\<lambda>f. RemoveSourceFile (getFilePath f)) (sourceFiles pr)\<rparr>)"
proof -
  have "filter (\<lambda>g. getFilePath g \<notin> getFilePath ` set (sourceFiles pr)) (sourceFiles pr) = []"
    by (simp add: filter_empty_conv)
  then show ?thesis
    by (simp add: fold_removeSourceFile getSourceFiles_def)
qed

lemma buildScopedProject_eq:
  "buildScopedProject env cfg target w =
     (case tsConfigFiles env cfg of
        Inl e \<Rightarrow> (Inl e, w\<lparr>trace := trace w @ [NewProject cfg]\<rparr>)
      | Inr files \<Rightarrow>
          (case statPath (processCwd env) (disk w) target of
             Some (File text) \<Rightarrow>
               if canParse env cfg text
               then (Inr (\<lparr>getFilePath = target, getFullText = text, isSaved = True\<rparr>,
                          \<lparr>configFilePath = cfg,
                           sourceFiles = [\<lparr>getFilePath = target, getFullText = text,
                                           isSaved = True\<rparr>]\<rparr>),
                     w\<lparr>trace := trace w @ builderEvents cfg files target\<rparr>)
               else (Inl ParseError, w\<lparr>trace := trace w @ builderEvents cfg files target\<rparr>)
           | _ \<Rightarrow> (Inl FileNotFoundError, w\<lparr>trace := trace w @ builderEvents cfg files target\<rparr>)))"
  by (simp add: buildScopedProject_def newProject_def remove_all_loaded addSourceFileAtPath_def
        emit_def builderEvents_def Let_def split: sum.splits option.splits node.splits)

text \<open>
  Claim C1. Once the project is built, it holds exactly one source file, the target
  file with the text it has on the disk, whatever the configuration made the project load
  when it opened. For the resolved path the script passes, that text is the entry of the
  disk at the path.
\<close>

theorem scoped_project_single_file:
  "buildScopedProject env cfg target w = (Inr (sf, pr), w') \<Longrightarrow>
   getSourceFiles pr = [sf] \<and> getFilePath sf = target
   \<and> statPath (processCwd env) (disk w) target = Some (File (getFullText sf))
   \<and> (processCwd env \<noteq> [] \<and> hd (processCwd env) = CHR ''/''
        \<and> (\<exists>p. target = path_resolve (processCwd env) p)
      \<longrightarrow> disk w target = Some (File (getFullText sf)))"
proof -
  assume b: "buildScopedProject env cfg target w = (Inr (sf, pr), w')"
  then have one: "getSourceFiles pr = [sf] \<and> getFilePath sf = target"
    and st: "statPath (processCwd env) (disk w) target = Some (File (getFullText sf))"
    by (auto simp: buildScopedProject_eq getSourceFiles_def
             split: sum.splits option.splits node.splits if_splits)
  have "disk w target = Some (File (getFullText sf))"
    if wd: "processCwd env \<noteq> [] \<and> hd (processCwd env) = CHR ''/''
            \<and> (\<exists>p. target = path_resolve (processCwd env) p)"
  proof -
    from wd obtain p where t: "target = path_resolve (processCwd env) p" by blast
    from st statPath_root[of "processCwd env" "disk w"] have "target \<noteq> ''/''" by auto
    with statPath_resolved[of "processCwd env" "disk w" p] wd st t show ?thesis by simp
  qed
  with one st show ?thesis by blast
qed

theorem scoped_project_single_file_witness:
  "buildScopedProject sampleEnv ''/home/u/tsconfig.json'' ''/home/u/proj/src/a.ts''
      \<lparr>disk = sampleDisk, trace = []\<rparr>
   = (Inr (\<lparr>getFilePath = ''/home/u/proj/src/a.ts'', getFullText = ''import { z } from zod'',
             isSaved = True\<rparr>,
           \<lparr>configFilePath = ''/home/u/tsconfig.json'',
            sourceFiles = [\<lparr>getFilePath = ''/home/u/proj/src/a.ts'',
                           getFullText = ''import { z } from zod'', isSaved = True\<rparr>]\<rparr>),
      \<lparr>disk = sampleDisk,
       trace = [NewProject ''/home/u/tsconfig.json'',
                RemoveSourceFile ''/home/u/proj/src/a.ts'',
                RemoveSourceFile ''/home/u/proj/src/b.ts'',
                AddSourceFileAtPath ''/home/u/proj/src/a.ts'']\<rparr>)
   \<and> getSourceFiles \<lparr>configFilePath = ''/home/u/tsconfig.json'',
            sourceFiles = [\<lparr>getFilePath = ''/home/u/proj/src/a.ts'',
                           getFullText = ''import { z } from zod'', isSaved = True\<rparr>]\<rparr>
       = [\<lparr>getFilePath = ''/home/u/proj/src/a.ts'', getFullText = ''import { z } from zod'',
           isSaved = True\<rparr>]"
proof -
  have st: "statPath ''/home/u/proj'' sampleDisk ''/home/u/proj/src/a.ts''
            = Some (File ''import { z } from zod'')"
    by code_simp
  have h: "buildScopedProject sampleEnv ''/home/u/tsconfig.json'' ''/home/u/proj/src/a.ts''
      \<lparr>disk = sampleDisk, trace = []\<rparr>
   = (Inr (\<lparr>getFilePath = ''/home/u/proj/src/a.ts'', getFullText = ''import { z } from zod'',
             isSaved = True\<rparr>,
           \<lparr>configFilePath = ''/home/u/tsconfig.json'',
            sourceFiles = [\<lparr>getFilePath = ''/home/u/proj/src/a.ts'',
                           getFullText = ''import { z } from zod'', isSaved = True\<rparr>]\<rparr>),
      \<lparr>disk = sampleDisk,
       trace = [NewProject ''/home/u/tsconfig.json'',
                RemoveSourceFile ''/home/u/proj/src/a.ts'',
                RemoveSourceFile ''/home/u/proj/src/b.ts'',
                AddSourceFileAtPath ''/home/u/proj/src/a.ts'']\<rparr>)"
    by (simp add: buildScopedProject_eq sampleEnv_def builderEvents_def st)
  from scoped_project_single_file [OF h] h show ?thesis by simp
qed

subsection \<open>A run as a whole\<close>

lemma save_single:
  "save env \<lparr>configFilePath = cfg, sourceFiles = [sf]\<rparr> w =
     (if isSaved sf then (None, w)
      else if canWrite env (getFilePath sf)
      then (None, w\<lparr>disk := (disk w)(getFilePath sf \<mapsto> File (getFullText sf)),
                    trace := trace w @ [WriteFile (getFilePath sf) (getFullText sf)]\<rparr>)
      else (Some WriteError, w))"
  by (simp add: save_def emit_def)

lemma findClosestTsConfig_world:
  "findClosestTsConfig wd startDir w =
     (fst (findClosestTsConfig wd startDir w), w\<lparr>trace := trace w @ probeEvents wd (disk w) startDir\<rparr>)"
  by (simp add: findClosestTsConfig_eq probeEvents_def)

lemma runMigration_eq:
  "runMigration env p w =
     (let target = path_resolve (processCwd env) p;
          startDir = path_dirname target;
          w1 = w\<lparr>trace := trace w @ probeEvents (processCwd env) (disk w) startDir\<rparr>
      in case fst (findClosestTsConfig (processCwd env) startDir w) of
           None \<Rightarrow> (Exited 1, w1\<lparr>trace := trace w1 @ [ConsoleError noTsConfigMessage]\<rparr>)
         | Some cfg \<Rightarrow>
             let w3 = w1\<lparr>trace := trace w1 @ startEvents cfg target\<rparr>
             in case tsConfigFiles env cfg of
                  Inl e \<Rightarrow> (Uncaught e, w3\<lparr>trace := trace w3 @ [NewProject cfg]\<rparr>)
                | Inr files \<Rightarrow>
                    let w4 = w3\<lparr>trace := trace w3 @ builderEvents cfg files target\<rparr>
                    in case statPath (processCwd env) (disk w) target of
                         Some (File text) \<Rightarrow>
                           if canParse env cfg text
                           then
                             (case migrateZodV3ToV4 env
                                     \<lparr>getFilePath = target, getFullText = text, isSaved = True\<rparr>
                                     True of
                                Threw err \<Rightarrow>
                                  (Exited 1,
                                   w4\<lparr>trace := trace w4 @
                                     [MigrateZodV3ToV4 target, ConsoleError (failureMessage target err)]\<rparr>)
                              | Returned None \<Rightarrow>
                                  (Completed,
                                   w4\<lparr>trace := trace w4 @
                                     [MigrateZodV3ToV4 target,
                                      ConsoleLog ''File has been migrated successfully.'']\<rparr>)
                              | Returned (Some text') \<Rightarrow>
                                  if canWrite env target
                                  then (Completed,
                                        w4\<lparr>disk := (disk w)(target \<mapsto> File text'),
                                           trace := trace w4 @
                                             [MigrateZodV3ToV4 target, WriteFile target text',
                                              ConsoleLog ''File has been migrated successfully.'']\<rparr>)
                                  else (Uncaught WriteError,
                                        w4\<lparr>trace := trace w4 @ [MigrateZodV3ToV4 target]\<rparr>))
                           else (Uncaught ParseError, w4)
                       | _ \<Rightarrow> (Uncaught FileNotFoundError, w4))"
  apply (subst runMigration_def)
  apply (subst findClosestTsConfig_world)
  apply (simp add: Let_def buildScopedProject_eq emit_def startEvents_def replaceText_def save_single
         split: option.splits sum.splits node.splits migrateResult.splits)
  done

lemma main_eq:
  "main env args dk =
     (case args of
        [] \<Rightarrow> noFilePath \<lparr>disk = dk, trace = []\<rparr>
      | p # _ \<Rightarrow>
          if p = [] then noFilePath \<lparr>disk = dk, trace = []\<rparr>
          else if path_extname p \<notin> set validExtensions
          then (Exited 1,
                \<lparr>disk = dk, trace = [ConsoleError (invalidMessage p reasonInvalidExtension)]\<rparr>)
          else if statPath (processCwd env) dk p = None
          then (Exited 1,
                \<lparr>disk = dk,
                 trace = [ExistsSync p, ConsoleError (invalidMessage p reasonFileNotFound)]\<rparr>)
          else runMigration env p \<lparr>disk = dk, trace = [ExistsSync p]\<rparr>)"
  by (simp add: main_def validateFilePath_invalid validateFilePath_valid emit_def
           split: list.splits)




text \<open>
  Claim C8. On a path whose extension is not recognized the run exits with code 1, and
  all it has done is print to the console: no look for a configuration, no project
  opened, no file loaded, nothing written.
\<close>

theorem invalid_extension_stops_early:
  "path_extname p \<notin> set validExtensions \<Longrightarrow>
   main env (p # rest) dk =
     (Exited 1,
      \<lparr>disk = dk,
       trace = (if p = []
                then [ConsoleError ''Error: No file path provided.'',
                      ConsoleError ''Usage: zod-v3-to-v4 <path-to-file>'']
                else [ConsoleError (invalidMessage p reasonInvalidExtension)])\<rparr>)
   \<and> (\<forall>e \<in> set (trace (snd (main env (p # rest) dk))). \<exists>m. e = ConsoleError m)"
  by (simp add: main_eq noFilePath_def emit_def)

theorem invalid_extension_stops_early_witness:
  "main sampleEnv [''README.md''] sampleDisk =
     (Exited 1,
      \<lparr>disk = sampleDisk,
       trace = [ConsoleError (invalidMessage ''README.md'' reasonInvalidExtension)]\<rparr>)"
proof -
  have h: "path_extname ''README.md'' \<notin> set validExtensions"
    by (simp add: path_extname_def validExtensions_def)
  from invalid_extension_stops_early [OF h, of sampleEnv "[]" sampleDisk]
  show ?thesis by simp
qed



lemma findClosestTsConfig_fst_disk:
  "disk w = disk w' \<Longrightarrow>
   fst (findClosestTsConfig wd startDir w) = fst (findClosestTsConfig wd startDir w')"
  by (simp add: findClosestTsConfig_eq)

lemma exitCode_runMigration:
  "exitCode (fst (runMigration env p w)) =
     (case fst (findClosestTsConfig (processCwd env)
                  (path_dirname (path_resolve (processCwd env) p)) w) of
        None \<Rightarrow> 1
      | Some cfg \<Rightarrow>
          (case fst (buildScopedProject env cfg (path_resolve (processCwd env) p) w) of
             Inl e \<Rightarrow> 1
           | Inr (sf, pr) \<Rightarrow>
               (case migrateZodV3ToV4 env sf True of
                  Threw err \<Rightarrow> 1
                | Returned None \<Rightarrow> 0
                | Returned (Some text) \<Rightarrow> if canWrite env (getFilePath sf) then 0 else 1)))"
  unfolding runMigration_eq buildScopedProject_eq Let_def
  by (auto split: option.splits sum.splits node.splits migrateResult.splits)

lemma buildScopedProject_fst_disk:
  "disk w = disk w' \<Longrightarrow>
   fst (buildScopedProject env cfg target w) = fst (buildScopedProject env cfg target w')"
  unfolding buildScopedProject_eq
  by (simp split: option.splits sum.splits node.splits)

text \<open>
  Claim C7. The exit code is 0 exactly when the whole pipeline succeeds, and 1 otherwise;
  in particular it is 1 when no path is given, when the path fails the validation, when
  no configuration is found above the file, and when the migration throws.
\<close>

theorem exit_code_by_stage:
  "exitCode (fst (main env args dk)) = (if pipelineSucceeds env args dk then 0 else 1)
   \<and> (args = [] \<or> hd args = [] \<longrightarrow> exitCode (fst (main env args dk)) = 1)
   \<and> (args \<noteq> [] \<and> fst (validateFilePath (processCwd env) (hd args) \<lparr>disk = dk, trace = []\<rparr>)
                       \<noteq> Success
       \<longrightarrow> exitCode (fst (main env args dk)) = 1)
   \<and> (args \<noteq> [] \<and> fst (findClosestTsConfig (processCwd env)
                            (path_dirname (path_resolve (processCwd env) (hd args)))
                            \<lparr>disk = dk, trace = []\<rparr>) = None
       \<longrightarrow> exitCode (fst (main env args dk)) = 1)
   \<and> (args \<noteq> [] \<and> (\<forall>sf. \<exists>err. migrateZodV3ToV4 env sf True = Threw err)
       \<longrightarrow> exitCode (fst (main env args dk)) = 1)"
proof -
  let ?w0 = "\<lparr>disk = dk, trace = []\<rparr>"
  have key: "exitCode (fst (main env args dk)) = (if pipelineSucceeds env args dk then 0 else 1)"
  proof (cases args)
    case Nil
    then show ?thesis by (simp add: main_eq noFilePath_def pipelineSucceeds_def)
  next
    case (Cons p rest)
    show ?thesis
    proof (cases "p = [] \<or> path_extname p \<notin> set validExtensions
                  \<or> statPath (processCwd env) dk p = None")
      case True
      with Cons show ?thesis
        by (auto simp: main_eq noFilePath_def pipelineSucceeds_def
                 validateFilePath_invalid validateFilePath_valid)
    next
      case False
      then have m: "main env (p # rest) dk = runMigration env p \<lparr>disk = dk, trace = [ExistsSync p]\<rparr>"
        by (auto simp: main_eq)
      from False have v: "fst (validateFilePath (processCwd env) p ?w0) = Success"
        by (auto simp: validateFilePath_valid)
      have f: "fst (findClosestTsConfig (processCwd env) (path_dirname (path_resolve (processCwd env) p))
                      \<lparr>disk = dk, trace = [ExistsSync p]\<rparr>)
             = fst (findClosestTsConfig (processCwd env) (path_dirname (path_resolve (processCwd env) p)) ?w0)"
        by (rule findClosestTsConfig_fst_disk) simp
      have b: "\<And>cfg. fst (buildScopedProject env cfg (path_resolve (processCwd env) p)
                      \<lparr>disk = dk, trace = [ExistsSync p]\<rparr>)
             = fst (buildScopedProject env cfg (path_resolve (processCwd env) p) ?w0)"
        by (rule buildScopedProject_fst_disk) simp
      from False v show ?thesis
        unfolding Cons m exitCode_runMigration f b pipelineSucceeds_def
        by (simp split: option.splits sum.splits migrateResult.splits prod.splits)
    qed
  qed
  moreover have "args = [] \<or> hd args = [] \<longrightarrow> \<not> pipelineSucceeds env args dk"
    by (cases args) (auto simp: pipelineSucceeds_def)
  moreover have "args \<noteq> [] \<and> fst (validateFilePath (processCwd env) (hd args) ?w0) \<noteq> Success
                 \<longrightarrow> \<not> pipelineSucceeds env args dk"
    by (cases args) (auto simp: pipelineSucceeds_def)
  moreover have "args \<noteq> [] \<and> fst (findClosestTsConfig (processCwd env)
                            (path_dirname (path_resolve (processCwd env) (hd args))) ?w0) = None
                 \<longrightarrow> \<not> pipelineSucceeds env args dk"
    by (cases args) (auto simp: pipelineSucceeds_def)
  moreover have "args \<noteq> [] \<and> (\<forall>sf. \<exists>err. migrateZodV3ToV4 env sf True = Threw err)
                 \<longrightarrow> \<not> pipelineSucceeds env args dk"
  proof (intro impI notI)
    assume h: "args \<noteq> [] \<and> (\<forall>sf. \<exists>err. migrateZodV3ToV4 env sf True = Threw err)"
       and s: "pipelineSucceeds env args dk"
    from h have nr: "\<And>sf t. migrateZodV3ToV4 env sf True \<noteq> Returned t" by (metis migrateResult.distinct(1))
    from s h show False
      by (cases args) (auto simp: pipelineSucceeds_def nr split: option.splits sum.splits migrateResult.splits)
  qed
  ultimately show ?thesis by simp
qed

theorem exit_code_by_stage_witness:
  "pipelineSucceeds sampleEnv [''src/a.ts''] sampleDisk
   \<and> exitCode (fst (main sampleEnv [''src/a.ts''] sampleDisk)) = 0
   \<and> \<not> pipelineSucceeds sampleEnv [] sampleDisk
   \<and> exitCode (fst (main sampleEnv [] sampleDisk)) = 1
   \<and> exitCode (fst (main sampleEnv [''src/missing.ts''] sampleDisk)) = 1
   \<and> exitCode (fst (main sampleEnv [''/a.ts''] [''/a.ts'' \<mapsto> File ''x''])) = 1
   \<and> exitCode (fst (main throwingEnv [''src/a.ts''] sampleDisk)) = 1
   \<and> pipelineSucceeds idleEnv [''src/a.ts''] sampleDisk
   \<and> exitCode (fst (main idleEnv [''src/a.ts''] sampleDisk)) = 0"
proof -
  have ok: "pipelineSucceeds sampleEnv [''src/a.ts''] sampleDisk"
    "pipelineSucceeds idleEnv [''src/a.ts''] sampleDisk"
    by code_simp+
  have v: "fst (validateFilePath (processCwd sampleEnv) (hd [''src/missing.ts''])
                 \<lparr>disk = sampleDisk, trace = []\<rparr>) \<noteq> Success"
    by code_simp
  have c: "fst (findClosestTsConfig (processCwd sampleEnv)
                 (path_dirname (path_resolve (processCwd sampleEnv) (hd [''/a.ts''])))
                 \<lparr>disk = [''/a.ts'' \<mapsto> File ''x''], trace = []\<rparr>) = None"
    by code_simp
  have t: "\<forall>sf. \<exists>err. migrateZodV3ToV4 throwingEnv sf True = Threw err"
    by (simp add: throwingEnv_def sampleEnv_def)
  have nok: "\<not> pipelineSucceeds sampleEnv [] sampleDisk"
    by (simp add: pipelineSucceeds_def)
  from exit_code_by_stage [of sampleEnv "[''src/a.ts'']" sampleDisk]
       exit_code_by_stage [of sampleEnv "[]" sampleDisk]
       exit_code_by_stage [of sampleEnv "[''src/missing.ts'']" sampleDisk]
       exit_code_by_stage [of sampleEnv "[''/a.ts'']" "[''/a.ts'' \<mapsto> File ''x'']"]
       exit_code_by_stage [of throwingEnv "[''src/a.ts'']" sampleDisk]
       exit_code_by_stage [of idleEnv "[''src/a.ts'']" sampleDisk]
       ok nok v c t
  show ?thesis by simp
qed




end
